theory Spec2Isabelle
  imports Complex_Main
begin

section \<open>The chunked energy fetch of \<^verbatim>\<open>solaredge_plot.py\<close>\<close>

text \<open>
  The development embeds \<^verbatim>\<open>fetch_single_chunk\<close> and \<^verbatim>\<open>fetch_energy_chunked\<close>.

  Scope of the model.
  \<^item> A calendar date is its proleptic Gregorian day number (Python's
    \<^verbatim>\<open>date.toordinal()\<close>), so \<^verbatim>\<open>d + timedelta(days=n)\<close> is \<open>d + n\<close>. The
    finite range of \<^verbatim>\<open>datetime.date\<close> (years 1 to 9999) and of pandas timestamps
    (years 1677 to 2262) is not modelled: the two dates come from \<^verbatim>\<open>st.date_input\<close>,
    which offers dates within ten years of its default value.
  \<^item> The globals \<^verbatim>\<open>API_KEY\<close> and \<^verbatim>\<open>SITE_ID\<close>, which the sidebar sets anew at every
    run of the script, are an argument \<open>cfg\<close> of every function that reads them.
  \<^item> The remote monitoring API is a parameter: a function from its own state and a
    request (URL and query parameters) to an outcome and a new state. Every request
    issued is appended to a log, and the warnings given to \<^verbatim>\<open>st.warning\<close> are
    collected in a list.
  \<^item> A \<^verbatim>\<open>DataFrame\<close> is the list of its rows. The columns \<^verbatim>\<open>value\<close> and
    \<^verbatim>\<open>hour\<close> are floating-point numbers in the program and rationals here.
  \<^item> The text of a sample's \<^verbatim>\<open>date\<close> field is taken as already parsed by
    \<^verbatim>\<open>pd.to_datetime\<close>; a warning is kept as the data its message is formatted from.
  \<^item> The memoisation of \<^verbatim>\<open>st.cache_data\<close> is not modelled: the definitions
    describe a call that is executed.
\<close>

subsection \<open>Calendar dates\<close>

type_synonym date = int

definition MAX_DAYS :: int where
  "MAX_DAYS = 31"

definition is_leap :: "int \<Rightarrow> bool" where
  "is_leap y \<longleftrightarrow> y mod 4 = 0 \<and> (y mod 100 \<noteq> 0 \<or> y mod 400 = 0)"

definition days_before_year :: "int \<Rightarrow> int" where
  "days_before_year y = (y - 1) * 365 + (y - 1) div 4 - (y - 1) div 100 + (y - 1) div 400"

definition days_in_month :: "int \<Rightarrow> int \<Rightarrow> int" where
  "days_in_month y m =
     (if m = 2 then (if is_leap y then 29 else 28)
      else if m = 4 \<or> m = 6 \<or> m = 9 \<or> m = 11 then 30 else 31)"

definition days_before_month :: "int \<Rightarrow> int \<Rightarrow> int" where
  "days_before_month y m = (\<Sum>k \<leftarrow> [1..m - 1]. days_in_month y k)"

text \<open>The day number of a calendar date, as \<^verbatim>\<open>date(y, m, d).toordinal()\<close>.\<close>

definition ymd :: "int \<Rightarrow> int \<Rightarrow> int \<Rightarrow> date" where
  "ymd y m d = days_before_year y + days_before_month y m + d"

subsection \<open>Samples and rows\<close>

record timestamp =
  ts_year :: int
  ts_month :: int
  ts_day :: int
  ts_hour :: int
  ts_minute :: int
  ts_second :: int

text \<open>One element of \<^verbatim>\<open>energy.values\<close>; a JSON \<^verbatim>\<open>null\<close> value is \<open>None\<close>.\<close>

record raw_sample =
  raw_date :: timestamp
  raw_value :: "rat option"

text \<open>One row of the frame returned by \<^verbatim>\<open>fetch_single_chunk\<close>, column by column.\<close>

record row =
  col_datetime :: timestamp
  col_value :: rat
  col_hour :: rat
  col_date :: date
  col_year :: int
  col_month :: int
  col_day :: int
  col_hour_rounded :: int

text \<open>\<^verbatim>\<open>Series.fillna(0)\<close> on one cell.\<close>

definition fillna :: "rat \<Rightarrow> rat option \<Rightarrow> rat" where
  "fillna z v = (case v of None \<Rightarrow> z | Some x \<Rightarrow> x)"

text \<open>\<^verbatim>\<open>Series.round()\<close> rounds to the nearest integer, a tie to the even one.\<close>

definition round_half_even :: "rat \<Rightarrow> int" where
  "round_half_even x =
     (let f = \<lfloor>x\<rfloor>; r = x - of_int f
      in if r < 1 / 2 then f
         else if 1 / 2 < r then f + 1
         else if even f then f else f + 1)"

definition normalize :: "raw_sample \<Rightarrow> row" where
  "normalize s =
     (let dt = raw_date s;
          h = of_int (ts_hour dt) + of_int (ts_minute dt) / 60
      in \<lparr> col_datetime = dt,
           col_value = fillna 0 (raw_value s),
           col_hour = h,
           col_date = ymd (ts_year dt) (ts_month dt) (ts_day dt),
           col_year = ts_year dt,
           col_month = ts_month dt,
           col_day = ts_day dt,
           col_hour_rounded = round_half_even h \<rparr>)"

subsection \<open>The remote service and the effects of a call\<close>

datatype exn = HTTPError int | ConnectionError | Timeout | JSONDecodeError

text \<open>
  The body of a response: one that \<^verbatim>\<open>r.json()\<close> cannot decode, or the list that
  \<^verbatim>\<open>r.json().get("energy", {}).get("values", [])\<close> gives (empty when a key is
  missing).
\<close>

datatype body = NotJSON | Values "raw_sample list"

text \<open>
  What \<^verbatim>\<open>requests.get(url, params, timeout=30)\<close> gives: no connection, no answer in
  time, or a response with its status code and body.
\<close>

datatype net_result = ConnectFailed | TimedOut | Reply int body

text \<open>The globals of lines 16, 17 and 23.\<close>

record config =
  API_KEY :: string
  SITE_ID :: string

definition BASE_URL :: "config \<Rightarrow> string" where
  "BASE_URL cfg = ''https://monitoringapi.solaredge.com/site/'' @ SITE_ID cfg"

text \<open>
  A request: the URL and the query parameters of \<^verbatim>\<open>requests.get\<close>. The two dates are
  sent in ISO format, which names a date uniquely; they are kept as dates.
\<close>

record request =
  url :: string
  api_key :: string
  timeUnit :: string
  startDate :: date
  endDate :: date

type_synonym 'w remote = "'w \<Rightarrow> request \<Rightarrow> net_result \<times> 'w"

datatype warning = Failed date date | Skipped date exn

record 'w effects =
  warnings :: "warning list"
  requests :: "request list"
  world :: 'w

type_synonym frames = "row list list"

subsection \<open>\<^verbatim>\<open>fetch_single_chunk\<close>\<close>

text \<open>\<^verbatim>\<open>Response.raise_for_status()\<close> raises for the 4xx and 5xx codes.\<close>

definition raise_for_status :: "int \<Rightarrow> exn option" where
  "raise_for_status status =
     (if 400 \<le> status \<and> status < 600 then Some (HTTPError status) else None)"

text \<open>The URL and the parameters of lines 55 to 61.\<close>

definition energy_request :: "config \<Rightarrow> string \<Rightarrow> date \<Rightarrow> date \<Rightarrow> request" where
  "energy_request cfg time_unit start_date end_date =
     \<lparr> url = BASE_URL cfg @ ''/energy'',
       api_key = API_KEY cfg,
       timeUnit = time_unit,
       startDate = start_date,
       endDate = end_date \<rparr>"

definition fetch_single_chunk ::
  "config \<Rightarrow> 'w remote \<Rightarrow> string \<Rightarrow> date \<Rightarrow> date \<Rightarrow> 'w effects
     \<Rightarrow> (exn + row list) \<times> 'w effects" where
  "fetch_single_chunk cfg remote time_unit start_date end_date fx =
     (let req = energy_request cfg time_unit start_date end_date;
          (r, w) = remote (world fx) req;
          fx' = fx\<lparr>requests := requests fx @ [req], world := w\<rparr>
      in case r of
           ConnectFailed \<Rightarrow> (Inl ConnectionError, fx')
         | TimedOut \<Rightarrow> (Inl Timeout, fx')
         | Reply status b \<Rightarrow>
             (case raise_for_status status of
                Some e \<Rightarrow> (Inl e, fx')
              | None \<Rightarrow>
                  (case b of
                     NotJSON \<Rightarrow> (Inl JSONDecodeError, fx')
                   | Values data \<Rightarrow> (Inr (map normalize data), fx'))))"

subsection \<open>\<^verbatim>\<open>fetch_energy_chunked\<close>\<close>

text \<open>The inner loop over \<^verbatim>\<open>pd.date_range(current, chunk_end)\<close>, lines 41 to 47.\<close>

fun retry_days ::
  "config \<Rightarrow> 'w remote \<Rightarrow> string \<Rightarrow> date list \<Rightarrow> frames \<Rightarrow> 'w effects \<Rightarrow> frames \<times> 'w effects" where
  "retry_days cfg remote time_unit [] all_frames fx = (all_frames, fx)"
| "retry_days cfg remote time_unit (d # ds) all_frames fx =
     (case fetch_single_chunk cfg remote time_unit d d fx of
        (Inr df_day, fx') \<Rightarrow>
          retry_days cfg remote time_unit ds
            (if df_day \<noteq> [] then all_frames @ [df_day] else all_frames) fx'
      | (Inl sub_e, fx') \<Rightarrow>
          retry_days cfg remote time_unit ds all_frames
            (fx'\<lparr>warnings := warnings fx' @ [Skipped d sub_e]\<rparr>))"

text \<open>
  The outcomes of the fetches of that loop, day by day: each is the outcome of line 43
  in the state the loop is in when it makes the request.
\<close>

fun day_results ::
  "config \<Rightarrow> 'w remote \<Rightarrow> string \<Rightarrow> date list \<Rightarrow> 'w effects
     \<Rightarrow> (date \<times> (exn + row list)) list" where
  "day_results cfg remote time_unit [] fx = []"
| "day_results cfg remote time_unit (d # ds) fx =
     (case fetch_single_chunk cfg remote time_unit d d fx of
        (Inr df_day, fx') \<Rightarrow> (d, Inr df_day) # day_results cfg remote time_unit ds fx'
      | (Inl sub_e, fx') \<Rightarrow>
          (d, Inl sub_e) # day_results cfg remote time_unit ds
            (fx'\<lparr>warnings := warnings fx' @ [Skipped d sub_e]\<rparr>))"

text \<open>What one such outcome adds to \<^verbatim>\<open>all_frames\<close>, and the warning it gives.\<close>

definition kept_frames :: "date \<times> (exn + row list) \<Rightarrow> frames" where
  "kept_frames res =
     (case snd res of Inr df_day \<Rightarrow> (if df_day \<noteq> [] then [df_day] else []) | Inl sub_e \<Rightarrow> [])"

definition skip_warnings :: "date \<times> (exn + row list) \<Rightarrow> warning list" where
  "skip_warnings res =
     (case snd res of Inr df_day \<Rightarrow> [] | Inl sub_e \<Rightarrow> [Skipped (fst res) sub_e])"

text \<open>The handler of \<^verbatim>\<open>requests.exceptions.HTTPError\<close>, lines 40 to 48.\<close>

definition day_by_day ::
  "config \<Rightarrow> 'w remote \<Rightarrow> string \<Rightarrow> date \<Rightarrow> date \<Rightarrow> frames \<Rightarrow> 'w effects \<Rightarrow> (date \<times> frames) \<times> 'w effects" where
  "day_by_day cfg remote time_unit current chunk_end all_frames fx =
     (let (all_frames', fx') =
            retry_days cfg remote time_unit [current..chunk_end] all_frames
              (fx\<lparr>warnings := warnings fx @ [Failed current chunk_end]\<rparr>)
      in ((chunk_end + 1, all_frames'), fx'))"

text \<open>
  The \<^verbatim>\<open>try\<close> statement, lines 33 to 48. It gives the new values of \<^verbatim>\<open>current\<close> and
  \<^verbatim>\<open>all_frames\<close>, or the exception that no handler catches.
\<close>

definition try_chunk ::
  "config \<Rightarrow> 'w remote \<Rightarrow> string \<Rightarrow> date \<Rightarrow> date \<Rightarrow> frames \<Rightarrow> 'w effects
     \<Rightarrow> (exn + date \<times> frames) \<times> 'w effects" where
  "try_chunk cfg remote time_unit current chunk_end all_frames fx =
     (case fetch_single_chunk cfg remote time_unit current chunk_end fx of
        (Inr df, fx') \<Rightarrow>
          (Inr (chunk_end + 1, if df \<noteq> [] then all_frames @ [df] else all_frames), fx')
      | (Inl (HTTPError c), fx') \<Rightarrow>
          (case day_by_day cfg remote time_unit current chunk_end all_frames fx' of
             (loc, fx'') \<Rightarrow> (Inr loc, fx''))
      | (Inl e, fx') \<Rightarrow> (Inl e, fx'))"

text \<open>The body of the \<^verbatim>\<open>while\<close> loop, lines 32 to 48.\<close>

definition loop_body ::
  "config \<Rightarrow> 'w remote \<Rightarrow> string \<Rightarrow> date \<Rightarrow> date \<times> frames \<Rightarrow> 'w effects
     \<Rightarrow> (exn + date \<times> frames) \<times> 'w effects" where
  "loop_body cfg remote time_unit end_date loc fx =
     (let current = fst loc;
          chunk_end = min (current + (MAX_DAYS - 1)) end_date
      in try_chunk cfg remote time_unit current chunk_end (snd loc) fx)"

text \<open>The \<^verbatim>\<open>while\<close> loop, lines 31 to 48, over the locals \<^verbatim>\<open>current\<close> and \<^verbatim>\<open>all_frames\<close>.\<close>

function (domintros) fetch_loop ::
  "config \<Rightarrow> 'w remote \<Rightarrow> string \<Rightarrow> date \<Rightarrow> date \<times> frames \<Rightarrow> 'w effects
     \<Rightarrow> (exn + date \<times> frames) \<times> 'w effects" where
  "fetch_loop cfg remote time_unit end_date loc fx =
     (if fst loc \<le> end_date then
        (case loop_body cfg remote time_unit end_date loc fx of
           (Inr loc', fx') \<Rightarrow> fetch_loop cfg remote time_unit end_date loc' fx'
         | (Inl e, fx') \<Rightarrow> (Inl e, fx'))
      else (Inr loc, fx))"
  by pat_completeness auto
termination
proof (relation
    "measure (\<lambda>(cfg, remote, time_unit, end_date, loc, fx). nat (end_date + 1 - fst loc))")
  show "wf (measure (\<lambda>(cfg :: config, remote :: 'w remote, time_unit :: string,
      end_date :: date, loc :: date \<times> frames, fx :: 'w effects).
        nat (end_date + 1 - fst loc)))"
    by simp
next
  fix cfg :: config and remote :: "'w remote" and time_unit :: string and end_date :: date
    and loc :: "date \<times> frames" and fx x1 loc' and fx' :: "'w effects"
  assume le: "fst loc \<le> end_date"
    and "(x1, fx') = loop_body cfg remote time_unit end_date loc fx"
    and "x1 = Inr loc'"
  then have "loop_body cfg remote time_unit end_date loc fx = (Inr loc', fx')"
    by simp
  then have "fst loc' = min (fst loc + (MAX_DAYS - 1)) end_date + 1"
    by (auto simp: loop_body_def try_chunk_def day_by_day_def Let_def
        split: prod.splits sum.splits exn.splits)
  with le show
    "((cfg, remote, time_unit, end_date, loc', fx'), (cfg, remote, time_unit, end_date, loc, fx))
      \<in> measure (\<lambda>(cfg, remote, time_unit, end_date, loc, fx). nat (end_date + 1 - fst loc))"
    by (simp add: MAX_DAYS_def)
qed

text \<open>The function, lines 27 to 52, run in the effects \<open>fx\<close> of its caller.\<close>

definition fetch_energy_chunked ::
  "config \<Rightarrow> 'w remote \<Rightarrow> string \<Rightarrow> date \<Rightarrow> date \<Rightarrow> 'w effects \<Rightarrow> (exn + row list) \<times> 'w effects" where
  "fetch_energy_chunked cfg remote time_unit start_date end_date fx =
     (case fetch_loop cfg remote time_unit end_date (start_date, []) fx of
        (Inr loc, fx') \<Rightarrow>
          (let all_frames = snd loc
           in (Inr (if all_frames \<noteq> [] then concat all_frames else []), fx'))
      | (Inl e, fx') \<Rightarrow> (Inl e, fx'))"

subsection \<open>The chunk plan of the loop\<close>

text \<open>
  The program has no planner of its own: the loop computes each sub-range from its
  cursor. \<open>chunks\<close> is that computation alone, lines 31, 32 and 37 (or 48): the pairs
  \<^verbatim>\<open>(current, chunk_end)\<close> of the successive iterations.
\<close>

function chunks :: "date \<Rightarrow> date \<Rightarrow> (date \<times> date) list" where
  "chunks current end_date =
     (if current \<le> end_date then
        (let chunk_end = min (current + (MAX_DAYS - 1)) end_date
         in (current, chunk_end) # chunks (chunk_end + 1) end_date)
      else [])"
  by pat_completeness auto
termination
  by (relation "measure (\<lambda>(current, end_date). nat (end_date + 1 - current))")
    (auto simp: MAX_DAYS_def)

text \<open>The \<^verbatim>\<open>try\<close> statement run on a given list of sub-ranges, one after the other.\<close>

fun run_chunks ::
  "config \<Rightarrow> 'w remote \<Rightarrow> string \<Rightarrow> (date \<times> date) list \<Rightarrow> date \<times> frames \<Rightarrow> 'w effects
     \<Rightarrow> (exn + date \<times> frames) \<times> 'w effects" where
  "run_chunks cfg remote time_unit [] loc fx = (Inr loc, fx)"
| "run_chunks cfg remote time_unit (c # cs) loc fx =
     (case try_chunk cfg remote time_unit (fst c) (snd c) (snd loc) fx of
        (Inr loc', fx') \<Rightarrow> run_chunks cfg remote time_unit cs loc' fx'
      | (Inl e, fx') \<Rightarrow> (Inl e, fx'))"

text \<open>A sub-range as the list of its days, and the number of days of a plan.\<close>

definition days_of :: "date \<times> date \<Rightarrow> date list" where
  "days_of c = [fst c..snd c]"

definition span_days :: "date \<times> date \<Rightarrow> int" where
  "span_days c = snd c - fst c + 1"

text \<open>Each sub-range of a list starts on the day after the one before it ends.\<close>

fun contiguous :: "(date \<times> date) list \<Rightarrow> bool" where
  "contiguous [] \<longleftrightarrow> True"
| "contiguous [c] \<longleftrightarrow> True"
| "contiguous (c # c' # cs) \<longleftrightarrow> fst c' = snd c + 1 \<and> contiguous (c' # cs)"

subsection \<open>A direct fetch day by day\<close>

text \<open>
  This definition follows the specification, not the program: the data of a list of
  days fetched one day at a time, in order, with no handler.
\<close>

fun direct_per_day ::
  "config \<Rightarrow> 'w remote \<Rightarrow> string \<Rightarrow> date list \<Rightarrow> 'w effects \<Rightarrow> (exn + row list) \<times> 'w effects" where
  "direct_per_day cfg remote time_unit [] fx = (Inr [], fx)"
| "direct_per_day cfg remote time_unit (d # ds) fx =
     (case fetch_single_chunk cfg remote time_unit d d fx of
        (Inl e, fx') \<Rightarrow> (Inl e, fx')
      | (Inr rows, fx') \<Rightarrow>
          (case direct_per_day cfg remote time_unit ds fx' of
             (Inl e, fx'') \<Rightarrow> (Inl e, fx'')
           | (Inr rest, fx'') \<Rightarrow> (Inr (rows @ rest), fx'')))"

subsection \<open>Example services\<close>

text \<open>
  Remote services for the concrete runs below. Their state is the number of requests
  answered so far. \<open>sample_of d\<close> is a reading of day number \<open>d\<close> at 14:40 with no
  value. \<open>cfg0\<close> and \<open>cfg1\<close> are the key and the identifiers of two sites.
\<close>

definition cfg0 :: config where
  "cfg0 = \<lparr> API_KEY = ''K'', SITE_ID = ''1'' \<rparr>"


definition sample_of :: "date \<Rightarrow> raw_sample" where
  "sample_of d =
     \<lparr> raw_date = \<lparr> ts_year = 2023, ts_month = 1, ts_day = d, ts_hour = 14,
                    ts_minute = 40, ts_second = 0 \<rparr>,
       raw_value = None \<rparr>"

definition service :: "(date \<Rightarrow> date \<Rightarrow> net_result) \<Rightarrow> nat remote" where
  "service answer w req = (answer (startDate req) (endDate req), Suc w)"

definition all_data :: "date \<Rightarrow> date \<Rightarrow> net_result" where
  "all_data a b = Reply 200 (Values (map sample_of [a..b]))"

definition no_data :: "date \<Rightarrow> date \<Rightarrow> net_result" where
  "no_data a b = Reply 200 (Values [])"

definition unreachable :: "date \<Rightarrow> date \<Rightarrow> net_result" where
  "unreachable a b = ConnectFailed"

definition too_slow :: "date \<Rightarrow> date \<Rightarrow> net_result" where
  "too_slow a b = TimedOut"

definition rejecting :: "date \<Rightarrow> date \<Rightarrow> net_result" where
  "rejecting a b = Reply 500 NotJSON"

text \<open>Single days are answered; a longer range is refused, or not answered in time.\<close>

definition days_only :: "net_result \<Rightarrow> date \<Rightarrow> date \<Rightarrow> net_result" where
  "days_only refusal a b = (if a = b then all_data a b else refusal)"

text \<open>As \<open>days_only\<close>, but the day \<open>lost\<close> is never answered in time.\<close>

definition one_day_lost :: "net_result \<Rightarrow> date \<Rightarrow> date \<Rightarrow> date \<Rightarrow> net_result" where
  "one_day_lost refusal lost a b =
     (if a = b then (if a = lost then TimedOut else all_data a b) else refusal)"


text \<open>
  A service that refuses its first request, whatever it is, then answers single days
  except day 2, which it never answers in time, and answers longer ranges.
\<close>

definition flaky :: "nat remote" where
  "flaky w req =
     (if w = 0 then Reply 503 NotJSON
      else if startDate req = 2 \<and> endDate req = 2 then TimedOut
      else all_data (startDate req) (endDate req),
      Suc w)"

definition fx0 :: "nat effects" where
  "fx0 = \<lparr> warnings = [], requests = [], world = 0 \<rparr>"

section \<open>Properties\<close>

subsection \<open>Normalisation\<close>

lemma normalize_cols:
  "col_value (normalize s) = (case raw_value s of None \<Rightarrow> 0 | Some v \<Rightarrow> v)"
  "col_hour (normalize s) = of_int (ts_hour (raw_date s)) + of_int (ts_minute (raw_date s)) / 60"
  "col_hour_rounded (normalize s) = round_half_even (col_hour (normalize s))"
  by (simp_all add: normalize_def fillna_def Let_def split: option.splits)

lemma round_half_even_nearest: "\<bar>of_int (round_half_even x) - x\<bar> \<le> 1 / 2"
proof -
  have "of_int \<lfloor>x\<rfloor> \<le> x" "x < of_int \<lfloor>x\<rfloor> + 1"
    by linarith+
  then show ?thesis
    by (auto simp: round_half_even_def Let_def abs_le_iff)
qed

text \<open>The rounded hour in terms of the clock: minutes before the half hour round down,
  minutes after it round up, and the half hour itself goes to the even hour.\<close>

lemma round_half_even_clock:
  assumes "0 \<le> m" and "m < 60"
  shows "round_half_even (of_int h + of_int m / 60) =
    (if m < 30 then h else if 30 < m then h + 1 else if even h then h else h + 1)"
proof -
  let ?x = "of_int h + of_int m / 60 :: rat"
  have lo: "(of_int h :: rat) \<le> ?x"
    using assms by simp
  have hi: "?x < of_int h + 1"
    using assms by simp
  have fl: "\<lfloor>?x\<rfloor> = h"
    using lo hi by linarith
  have lt: "(of_int m / 60 < (1 / 2 :: rat)) \<longleftrightarrow> m < 30"
    by (simp add: field_simps)
  have gt: "((1 / 2 :: rat) < of_int m / 60) \<longleftrightarrow> 30 < m"
    by (simp add: field_simps)
  have "round_half_even ?x =
      (if ?x - of_int h < 1 / 2 then h
       else if 1 / 2 < ?x - of_int h then h + 1
       else if even h then h else h + 1)"
    by (simp only: round_half_even_def Let_def fl)
  also have "?x - of_int h = of_int m / 60"
    by simp
  finally show ?thesis
    by (simp only: lt gt)
qed

lemma energy_request_sel [simp]:
  "url (energy_request cfg time_unit a b) = BASE_URL cfg @ ''/energy''"
  "api_key (energy_request cfg time_unit a b) = API_KEY cfg"
  "timeUnit (energy_request cfg time_unit a b) = time_unit"
  "startDate (energy_request cfg time_unit a b) = a"
  "endDate (energy_request cfg time_unit a b) = b"
  by (simp_all add: energy_request_def)

lemma fetch_single_chunk_reply:
  assumes "remote (world fx) (energy_request cfg time_unit a b) = (Reply status (Values data), w)"
    and "raise_for_status status = None"
  shows "fetch_single_chunk cfg remote time_unit a b fx =
    (Inr (map normalize data),
     fx\<lparr>requests := requests fx @ [energy_request cfg time_unit a b], world := w\<rparr>)"
  using assms by (simp add: fetch_single_chunk_def)

text \<open>
  Claim C3. Every sample of a response that \<^verbatim>\<open>fetch_single_chunk\<close> accepts becomes one
  row, in order, and in each row a missing value is 0, the fractional hour is the hour
  plus a sixtieth of the minute, and the rounded hour is the fractional hour rounded to
  an integer at most one half away from it.
\<close>

theorem fetch_single_chunk_normalizes:
  assumes "remote (world fx) (energy_request cfg time_unit a b) = (Reply status (Values data), w)"
    and "raise_for_status status = None"
  shows "fst (fetch_single_chunk cfg remote time_unit a b fx) = Inr (map normalize data)
    \<and> (\<forall>s. col_value (normalize s) = (case raw_value s of None \<Rightarrow> 0 | Some v \<Rightarrow> v)
          \<and> col_hour (normalize s) =
              of_int (ts_hour (raw_date s)) + of_int (ts_minute (raw_date s)) / 60
          \<and> col_hour_rounded (normalize s) = round_half_even (col_hour (normalize s))
          \<and> \<bar>of_int (col_hour_rounded (normalize s)) - col_hour (normalize s)\<bar> \<le> 1 / 2)"
proof -
  have "fst (fetch_single_chunk cfg remote time_unit a b fx) = Inr (map normalize data)"
    using fetch_single_chunk_reply [where remote = remote and fx = fx and cfg = cfg, OF assms] by simp
  moreover have "\<bar>of_int (col_hour_rounded (normalize s)) - col_hour (normalize s)\<bar> \<le> 1 / 2"
    for s
    by (simp only: normalize_cols round_half_even_nearest)
  ultimately show ?thesis
    using normalize_cols by blast
qed

text \<open>A reading at 14:40 with a null value: the row has value 0 and rounded hour 15.\<close>

theorem fetch_single_chunk_normalizes_witness:
  "service all_data (world fx0) (energy_request cfg0 ''QUARTER_OF_AN_HOUR'' 7 7)
     = (Reply 200 (Values [sample_of 7]), 1)
   \<and> raise_for_status 200 = None
   \<and> fst (fetch_single_chunk cfg0 (service all_data) ''QUARTER_OF_AN_HOUR'' 7 7 fx0)
       = Inr [normalize (sample_of 7)]
   \<and> raw_value (sample_of 7) = None
   \<and> col_value (normalize (sample_of 7)) = 0
   \<and> col_hour (normalize (sample_of 7)) = 14 + 40 / 60
   \<and> col_hour_rounded (normalize (sample_of 7)) = 15"
proof -
  have h1: "service all_data (world fx0) (energy_request cfg0 ''QUARTER_OF_AN_HOUR'' 7 7)
      = (Reply 200 (Values [sample_of 7]), 1)"
    by (simp add: service_def all_data_def fx0_def)
  have h2: "raise_for_status 200 = None"
    by (simp add: raise_for_status_def)
  have r: "round_half_even (of_int 14 + of_int 40 / 60) = 15"
    by (simp only: round_half_even_clock) simp
  from fetch_single_chunk_normalizes [where remote = "service all_data" and fx = fx0
      and cfg = cfg0, OF h1 h2]
    h1 h2 r show ?thesis
    by (simp add: sample_of_def)
qed

subsection \<open>The effects of a fetch\<close>

lemma fetch_single_chunk_effects:
  "warnings (snd (fetch_single_chunk cfg remote time_unit a b fx)) = warnings fx"
  "requests (snd (fetch_single_chunk cfg remote time_unit a b fx)) = requests fx @ [energy_request cfg time_unit a b]"
  by (auto simp: fetch_single_chunk_def Let_def split: prod.splits net_result.splits option.splits
      body.splits)

text \<open>A fetch reads the state of the remote service only; the warnings given so far
  pass through it.\<close>

lemma fetch_single_chunk_warnings:
  "fetch_single_chunk cfg remote time_unit a b (fx\<lparr>warnings := ws\<rparr>) =
    (fst (fetch_single_chunk cfg remote time_unit a b fx),
     (snd (fetch_single_chunk cfg remote time_unit a b fx))\<lparr>warnings := ws\<rparr>)"
  by (auto simp: fetch_single_chunk_def Let_def split: prod.splits net_result.splits option.splits
      body.splits)

subsection \<open>The chunk plan\<close>

lemma chunks_Nil: "end_date < current \<Longrightarrow> chunks current end_date = []"
  by simp

lemma chunks_Cons:
  "current \<le> end_date \<Longrightarrow>
    chunks current end_date =
      (current, min (current + (MAX_DAYS - 1)) end_date)
        # chunks (min (current + (MAX_DAYS - 1)) end_date + 1) end_date"
  by (subst chunks.simps) (simp add: Let_def)

declare chunks.simps [simp del]

text \<open>The days of the sub-ranges, one sub-range after the other, are the days of the
  range, each once and in ascending order.\<close>

lemma chunks_days: "concat (map days_of (chunks current end_date)) = [current..end_date]"
proof (induction current end_date rule: chunks.induct)
  case (1 current end_date)
  show ?case
  proof (cases "current \<le> end_date")
    case True
    let ?ce = "min (current + (MAX_DAYS - 1)) end_date"
    have ce: "current \<le> ?ce" "?ce \<le> end_date"
      using True by (simp_all add: MAX_DAYS_def)
    have "concat (map days_of (chunks current end_date))
        = [current..?ce] @ concat (map days_of (chunks (?ce + 1) end_date))"
      by (simp add: chunks_Cons [OF True] days_of_def)
    also have "\<dots> = [current..?ce] @ [?ce + 1..end_date]"
      using "1.IH" [OF True refl] by simp
    also have "\<dots> = [current..end_date]"
      using upto_split2 [OF ce] by simp
    finally show ?thesis .
  next
    case False
    then show ?thesis
      by (simp add: chunks_Nil)
  qed
qed

lemma chunks_bounds:
  "c \<in> set (chunks current end_date) \<Longrightarrow>
    current \<le> fst c \<and> fst c \<le> snd c \<and> snd c \<le> end_date \<and> span_days c \<le> MAX_DAYS"
proof (induction current end_date rule: chunks.induct)
  case (1 current end_date)
  show ?case
  proof (cases "current \<le> end_date")
    case True
    let ?ce = "min (current + (MAX_DAYS - 1)) end_date"
    from "1.prems" consider "c = (current, ?ce)" | "c \<in> set (chunks (?ce + 1) end_date)"
      by (auto simp: chunks_Cons [OF True])
    then show ?thesis
    proof cases
      case 1
      with True show ?thesis
        by (simp add: span_days_def MAX_DAYS_def)
    next
      case 2
      from "1.IH" [OF True refl 2] True show ?thesis
        by (auto simp: MAX_DAYS_def min_def split: if_splits)
    qed
  next
    case False
    with "1.prems" show ?thesis
      by (simp add: chunks_Nil)
  qed
qed

lemma chunks_contiguous: "contiguous (chunks current end_date)"
proof (induction current end_date rule: chunks.induct)
  case (1 current end_date)
  show ?case
  proof (cases "current \<le> end_date")
    case True
    let ?ce = "min (current + (MAX_DAYS - 1)) end_date"
    show ?thesis
    proof (cases "?ce + 1 \<le> end_date")
      case next_chunk: True
      from "1.IH" [OF True refl] show ?thesis
        by (simp add: chunks_Cons [OF True] chunks_Cons [OF next_chunk])
    next
      case False
      then show ?thesis
        by (simp add: chunks_Cons [OF True] chunks_Nil)
    qed
  next
    case False
    then show ?thesis
      by (simp add: chunks_Nil)
  qed
qed

lemma chunks_last:
  "current \<le> end_date \<Longrightarrow> snd (last (chunks current end_date)) = end_date"
proof (induction current end_date rule: chunks.induct)
  case (1 current end_date)
  let ?ce = "min (current + (MAX_DAYS - 1)) end_date"
  have le: "current \<le> end_date"
    by (rule "1.prems")
  show ?case
  proof (cases "?ce + 1 \<le> end_date")
    case True
    then have "chunks (?ce + 1) end_date \<noteq> []"
      by (simp add: chunks_Cons)
    with "1.IH" [OF le refl True] show ?thesis
      by (simp add: chunks_Cons [OF le])
  next
    case False
    with le have "?ce = end_date"
      by (simp add: MAX_DAYS_def)
    with False show ?thesis
      by (simp add: chunks_Cons [OF le] chunks_Nil)
  qed
qed

text \<open>Every sub-range ends before any later one starts.\<close>

lemma chunks_ordered: "sorted_wrt (\<lambda>c c'. snd c < fst c') (chunks current end_date)"
proof (induction current end_date rule: chunks.induct)
  case (1 current end_date)
  show ?case
  proof (cases "current \<le> end_date")
    case True
    let ?ce = "min (current + (MAX_DAYS - 1)) end_date"
    have "?ce < fst c'" if "c' \<in> set (chunks (?ce + 1) end_date)" for c'
      using chunks_bounds [OF that] by simp
    with "1.IH" [OF True refl] show ?thesis
      by (simp add: chunks_Cons [OF True])
  next
    case False
    then show ?thesis
      by (simp add: chunks_Nil)
  qed
qed

lemma chunks_starts_ascending: "sorted_wrt (<) (map fst (chunks current end_date))"
proof -
  have "sorted_wrt (\<lambda>c c'. fst c < fst c') (chunks current end_date)"
  proof (rule sorted_wrt_mono_rel [OF _ chunks_ordered])
    fix c c' :: "date \<times> date"
    assume "c \<in> set (chunks current end_date)" and "snd c < fst c'"
    then show "fst c < fst c'"
      using chunks_bounds [of c current end_date] by simp
  qed
  then show ?thesis
    by (simp add: sorted_wrt_map)
qed

lemma chunks_union: "(\<Union>c \<in> set (chunks current end_date). {fst c..snd c}) = {current..end_date}"
proof -
  have "set (concat (map days_of (chunks current end_date))) = set [current..end_date]"
    by (simp only: chunks_days)
  then show ?thesis
    by (simp add: days_of_def)
qed

text \<open>The loop is the \<^verbatim>\<open>try\<close> statement run on the sub-ranges of its plan, in order.\<close>

lemma fetch_loop_chunks:
  "fetch_loop cfg remote time_unit end_date loc fx =
    run_chunks cfg remote time_unit (chunks (fst loc) end_date) loc fx"
proof (induction cfg remote time_unit end_date loc fx rule: fetch_loop.induct)
  case (1 cfg remote time_unit end_date loc fx)
  show ?case
  proof (cases "fst loc \<le> end_date")
    case True
    let ?ce = "min (fst loc + (MAX_DAYS - 1)) end_date"
    obtain r fx' where body: "loop_body cfg remote time_unit end_date loc fx = (r, fx')"
      by (cases "loop_body cfg remote time_unit end_date loc fx")
    then have tr: "try_chunk cfg remote time_unit (fst loc) ?ce (snd loc) fx = (r, fx')"
      by (simp add: loop_body_def Let_def)
    show ?thesis
    proof (cases r)
      case (Inl e)
      with True body tr show ?thesis
        by (subst fetch_loop.simps) (simp add: chunks_Cons [OF True])
    next
      case (Inr loc')
      have cur: "fst loc' = ?ce + 1"
        using tr unfolding Inr
        by (auto simp: try_chunk_def day_by_day_def split: prod.splits sum.splits exn.splits)
      have "fetch_loop cfg remote time_unit end_date loc fx
          = fetch_loop cfg remote time_unit end_date loc' fx'"
        using True body Inr by (subst fetch_loop.simps) simp
      also have "\<dots> = run_chunks cfg remote time_unit (chunks (fst loc') end_date) loc' fx'"
        using "1.IH" [OF True body [symmetric] Inr] .
      also have "\<dots> = run_chunks cfg remote time_unit (chunks (fst loc) end_date) loc fx"
        using tr Inr by (simp add: chunks_Cons [OF True] cur)
      finally show ?thesis .
    qed
  next
    case False
    then show ?thesis
      by (subst fetch_loop.simps) (simp add: chunks_Nil)
  qed
qed

declare fetch_loop.simps [simp del]

text \<open>When no fetch of a sub-range fails, the requests of the run are the sub-ranges of
  the plan, one request each, in order.\<close>

lemma run_chunks_requests:
  assumes "\<forall>c \<in> set cs. \<forall>fx. \<not> isl (fst (fetch_single_chunk cfg remote time_unit (fst c) (snd c) fx))"
  shows "requests (snd (run_chunks cfg remote time_unit cs loc fx))
    = requests fx @ map (\<lambda>c. energy_request cfg time_unit (fst c) (snd c)) cs"
  using assms
proof (induction cs arbitrary: loc fx)
  case Nil
  show ?case
    by simp
next
  case (Cons c cs)
  obtain r fx1 where chunk: "fetch_single_chunk cfg remote time_unit (fst c) (snd c) fx = (r, fx1)"
    by (cases "fetch_single_chunk cfg remote time_unit (fst c) (snd c) fx")
  with Cons.prems obtain df where r: "r = Inr df"
    by (cases r) (auto dest: spec [of _ fx])
  have log: "requests fx1 = requests fx @ [energy_request cfg time_unit (fst c) (snd c)]"
    using fetch_single_chunk_effects(2) [of cfg remote time_unit "fst c" "snd c" fx]
    by (simp add: chunk)
  have rest: "\<forall>c \<in> set cs. \<forall>fx.
      \<not> isl (fst (fetch_single_chunk cfg remote time_unit (fst c) (snd c) fx))"
    using Cons.prems by simp
  from Cons.IH [OF rest, of _ fx1] show ?case
    by (simp add: try_chunk_def chunk r log)
qed

text \<open>
  Claim C2. For a range with \<open>start_date \<le> end_date\<close> the loop runs its \<^verbatim>\<open>try\<close>
  statement on the sub-ranges \<open>chunks start_date end_date\<close>, in order. There is at
  least one; each has between 1 and 31 days; each starts on the day after the one
  before it ends (contiguous); each ends before any later one starts (no overlap), so
  the start dates ascend; and their days together are exactly the days of the range.
  When no fetch of a sub-range fails, the requests the loop issues are these sub-ranges.
\<close>

theorem chunks_partition:
  assumes "start_date \<le> end_date"
  shows "fetch_loop cfg remote time_unit end_date (start_date, all_frames) fx
        = run_chunks cfg remote time_unit (chunks start_date end_date) (start_date, all_frames) fx
    \<and> chunks start_date end_date \<noteq> []
    \<and> fst (hd (chunks start_date end_date)) = start_date
    \<and> snd (last (chunks start_date end_date)) = end_date
    \<and> (\<forall>c \<in> set (chunks start_date end_date). 1 \<le> span_days c \<and> span_days c \<le> 31)
    \<and> contiguous (chunks start_date end_date)
    \<and> sorted_wrt (\<lambda>c c'. snd c < fst c') (chunks start_date end_date)
    \<and> sorted_wrt (<) (map fst (chunks start_date end_date))
    \<and> concat (map days_of (chunks start_date end_date)) = [start_date..end_date]
    \<and> (\<Union>c \<in> set (chunks start_date end_date). {fst c..snd c}) = {start_date..end_date}
    \<and> ((\<forall>c \<in> set (chunks start_date end_date). \<forall>fx.
          \<not> isl (fst (fetch_single_chunk cfg remote time_unit (fst c) (snd c) fx))) \<longrightarrow>
        requests (snd (fetch_loop cfg remote time_unit end_date (start_date, all_frames) fx))
          = requests fx @ map (\<lambda>c. energy_request cfg time_unit (fst c) (snd c)) (chunks start_date end_date))"
proof -
  let ?cs = "chunks start_date end_date"
  have ne: "?cs \<noteq> []"
    by (simp add: chunks_Cons [OF assms])
  have first: "fst (hd ?cs) = start_date"
    by (simp add: chunks_Cons [OF assms])
  have final: "snd (last ?cs) = end_date"
    using assms by (rule chunks_last)
  have span: "\<forall>c \<in> set ?cs. 1 \<le> span_days c \<and> span_days c \<le> 31"
    using chunks_bounds [of _ start_date end_date] by (auto simp: span_days_def MAX_DAYS_def)
  have log: "requests (snd (fetch_loop cfg remote time_unit end_date (start_date, all_frames) fx))
      = requests fx @ map (\<lambda>c. energy_request cfg time_unit (fst c) (snd c)) ?cs"
    if "\<forall>c \<in> set ?cs. \<forall>fx.
      \<not> isl (fst (fetch_single_chunk cfg remote time_unit (fst c) (snd c) fx))"
    using run_chunks_requests [OF that, of "(start_date, all_frames)" fx]
    by (simp add: fetch_loop_chunks)
  have plan: "fetch_loop cfg remote time_unit end_date (start_date, all_frames) fx
      = run_chunks cfg remote time_unit ?cs (start_date, all_frames) fx"
    by (simp add: fetch_loop_chunks)
  from plan ne first final span log
    chunks_contiguous [of start_date end_date] chunks_ordered [of start_date end_date]
    chunks_starts_ascending [of start_date end_date] chunks_days [of start_date end_date]
    chunks_union [of start_date end_date]
  show ?thesis
    by blast
qed

theorem chunks_partition_witness:
  "(1::int) \<le> 40
   \<and> chunks 1 40 = [(1, 31), (32, 40)]
   \<and> contiguous (chunks 1 40)
   \<and> sorted_wrt (<) (map fst (chunks 1 40))
   \<and> concat (map days_of (chunks 1 40)) = [1..40]
   \<and> requests (snd (fetch_loop cfg0 (service no_data) ''DAY'' 40 (1, []) fx0))
       = [energy_request cfg0 ''DAY'' 1 31, energy_request cfg0 ''DAY'' 32 40]"
proof -
  have h: "(1::int) \<le> 40"
    by simp
  have plan: "chunks 1 40 = [(1, 31), (32, 40)]"
    by (simp add: chunks_Cons chunks_Nil MAX_DAYS_def)
  have ok: "\<forall>c \<in> set (chunks 1 40). \<forall>fx.
      \<not> isl (fst (fetch_single_chunk cfg0 (service no_data) ''DAY'' (fst c) (snd c) fx))"
    by (simp add: fetch_single_chunk_def raise_for_status_def service_def no_data_def)
  note part = chunks_partition [OF h, of cfg0 "service no_data" "''DAY''" "[]" fx0]
  from part have shape: "contiguous (chunks 1 40)" "sorted_wrt (<) (map fst (chunks 1 40))"
    "concat (map days_of (chunks 1 40)) = [1..40]"
    by blast+
  from part ok have "requests (snd (fetch_loop cfg0 (service no_data) ''DAY'' 40 (1, []) fx0))
      = requests fx0 @ map (\<lambda>c. energy_request cfg0 ''DAY'' (fst c) (snd c)) (chunks 1 40)"
    by blast
  then have log: "requests (snd (fetch_loop cfg0 (service no_data) ''DAY'' 40 (1, []) fx0))
      = [energy_request cfg0 ''DAY'' 1 31, energy_request cfg0 ''DAY'' 32 40]"
    by (simp add: plan fx0_def)
  from h plan shape log show ?thesis
    by blast
qed

text \<open>
  Claim C8. For 2023-01-01 to 2023-03-05 the plan of the loop is 2023-01-01 to
  2023-01-31, 2023-02-01 to 2023-03-03 and 2023-03-04 to 2023-03-05, in that order, and
  a run against a service that answers every request issues exactly these three
  requests.
\<close>

theorem chunks_2023:
  "chunks (ymd 2023 1 1) (ymd 2023 3 5) =
     [(ymd 2023 1 1, ymd 2023 1 31), (ymd 2023 2 1, ymd 2023 3 3), (ymd 2023 3 4, ymd 2023 3 5)]
   \<and> requests (snd (fetch_energy_chunked cfg0 (service no_data) ''QUARTER_OF_AN_HOUR''
        (ymd 2023 1 1) (ymd 2023 3 5) fx0)) =
     [energy_request cfg0 ''QUARTER_OF_AN_HOUR'' (ymd 2023 1 1) (ymd 2023 1 31),
      energy_request cfg0 ''QUARTER_OF_AN_HOUR'' (ymd 2023 2 1) (ymd 2023 3 3),
      energy_request cfg0 ''QUARTER_OF_AN_HOUR'' (ymd 2023 3 4) (ymd 2023 3 5)]"
proof -
  have d: "ymd 2023 1 1 = 738521" "ymd 2023 1 31 = 738551" "ymd 2023 2 1 = 738552"
    "ymd 2023 3 3 = 738582" "ymd 2023 3 4 = 738583" "ymd 2023 3 5 = 738584"
    by (simp_all add: ymd_def days_before_year_def days_before_month_def days_in_month_def
        is_leap_def upto_rec1)
  have plan: "chunks 738521 738584 = [(738521, 738551), (738552, 738582), (738583, 738584)]"
    by (simp add: chunks_Cons chunks_Nil MAX_DAYS_def)
  show ?thesis
    unfolding d fetch_energy_chunked_def fetch_loop_chunks fst_conv plan
    by (simp add: try_chunk_def fetch_single_chunk_def raise_for_status_def service_def
        no_data_def fx0_def)
qed

text \<open>
  Claim C7. When the end date is before the start date the loop has no sub-range to
  run, and the function returns the empty frame and leaves the effects as they were:
  no request is added to the log, no warning is given and the state of the remote
  service is untouched.
\<close>

theorem empty_range:
  assumes "end_date < start_date"
  shows "chunks start_date end_date = []
    \<and> fetch_energy_chunked cfg remote time_unit start_date end_date fx = (Inr [], fx)"
  using assms by (simp add: fetch_energy_chunked_def fetch_loop_chunks chunks_Nil)

theorem empty_range_witness:
  "ymd 2023 3 5 < ymd 2023 3 6
   \<and> fetch_energy_chunked cfg0 (service all_data) ''QUARTER_OF_AN_HOUR'' (ymd 2023 3 6) (ymd 2023 3 5)
       fx0 = (Inr [], fx0)
   \<and> requests fx0 = []"
proof -
  have h: "ymd 2023 3 5 < ymd 2023 3 6"
    by (simp add: ymd_def)
  from empty_range [OF h, of cfg0 "service all_data" "''QUARTER_OF_AN_HOUR''" fx0] h show ?thesis
    by (simp add: fx0_def)
qed

subsection \<open>Termination of the loop\<close>

lemma try_chunk_success:
  "fetch_single_chunk cfg remote time_unit current chunk_end fx = (Inr df, fx') \<Longrightarrow>
    try_chunk cfg remote time_unit current chunk_end all_frames fx =
      (Inr (chunk_end + 1, if df \<noteq> [] then all_frames @ [df] else all_frames), fx')"
  by (simp add: try_chunk_def)

lemma try_chunk_http_error:
  "fetch_single_chunk cfg remote time_unit current chunk_end fx = (Inl (HTTPError c), fx') \<Longrightarrow>
    try_chunk cfg remote time_unit current chunk_end all_frames fx =
      (Inr (fst (day_by_day cfg remote time_unit current chunk_end all_frames fx')),
       snd (day_by_day cfg remote time_unit current chunk_end all_frames fx'))"
  by (simp add: try_chunk_def split: prod.splits)

lemma day_by_day_cursor:
  "fst (fst (day_by_day cfg remote time_unit current chunk_end all_frames fx)) = chunk_end + 1"
  by (simp add: day_by_day_def split: prod.splits)

lemma try_chunk_cursor:
  "try_chunk cfg remote time_unit current chunk_end all_frames fx = (Inr loc', fx') \<Longrightarrow>
    fst loc' = chunk_end + 1"
  by (auto simp: try_chunk_def day_by_day_def split: prod.splits sum.splits exn.splits)

lemma loop_body_cursor:
  "loop_body cfg remote time_unit end_date loc fx = (Inr loc', fx') \<Longrightarrow>
    fst loc' = min (fst loc + (MAX_DAYS - 1)) end_date + 1"
  by (simp add: loop_body_def Let_def try_chunk_cursor)

lemma run_chunks_cursor:
  "run_chunks cfg remote time_unit cs loc fx = (Inr loc', fx') \<Longrightarrow>
    fst loc' = (if cs = [] then fst loc else snd (last cs) + 1)"
proof (induction cs arbitrary: loc fx)
  case Nil
  then show ?case
    by simp
next
  case (Cons c cs)
  obtain r fx1 where tr: "try_chunk cfg remote time_unit (fst c) (snd c) (snd loc) fx = (r, fx1)"
    by (cases "try_chunk cfg remote time_unit (fst c) (snd c) (snd loc) fx")
  with Cons.prems obtain loc1 where r: "r = Inr loc1"
    by (cases r) simp_all
  with Cons.prems tr have "run_chunks cfg remote time_unit cs loc1 fx1 = (Inr loc', fx')"
    by simp
  from Cons.IH [OF this] try_chunk_cursor [OF tr [unfolded r]] show ?case
    by simp
qed

text \<open>
  Claim C10. The loop terminates on every input: every argument is in the domain of
  the recursion that defines \<open>fetch_loop\<close>. Both ways through the \<^verbatim>\<open>try\<close> statement,
  the fetch that succeeds and the fetch that raises \<^verbatim>\<open>HTTPError\<close>, leave the cursor on
  the day after \<^verbatim>\<open>chunk_end\<close>, so an iteration that completes moves the cursor
  strictly forward; a loop that completes leaves the cursor after the end date; and
  there are at most as many iterations as days in the range.
\<close>

theorem fetch_loop_terminates:
  "fetch_loop_dom (cfg, remote, time_unit, end_date, loc, fx)
   \<and> (\<forall>df fx'. fetch_single_chunk cfg remote time_unit current chunk_end fx = (Inr df, fx') \<longrightarrow>
        (\<exists>fr fx''. try_chunk cfg remote time_unit current chunk_end all_frames fx
           = (Inr (chunk_end + 1, fr), fx'')))
   \<and> (\<forall>c fx'. fetch_single_chunk cfg remote time_unit current chunk_end fx = (Inl (HTTPError c), fx') \<longrightarrow>
        (\<exists>fr fx''. try_chunk cfg remote time_unit current chunk_end all_frames fx
           = (Inr (chunk_end + 1, fr), fx'')))
   \<and> (\<forall>loc' fx'. fst loc \<le> end_date
          \<and> loop_body cfg remote time_unit end_date loc fx = (Inr loc', fx') \<longrightarrow>
        fst loc < fst loc' \<and> fst loc' = min (fst loc + (MAX_DAYS - 1)) end_date + 1)
   \<and> (\<forall>loc' fx'. fetch_loop cfg remote time_unit end_date loc fx = (Inr loc', fx') \<longrightarrow>
        end_date < fst loc' \<and> (fst loc \<le> end_date \<longrightarrow> fst loc' = end_date + 1))
   \<and> length (chunks (fst loc) end_date) \<le> nat (end_date + 1 - fst loc)"
proof -
  have dom: "fetch_loop_dom (cfg, remote, time_unit, end_date, loc, fx)"
  proof (induction "nat (end_date + 1 - fst loc)" arbitrary: loc fx rule: less_induct)
    case less
    show ?case
    proof (rule fetch_loop.domintros)
      fix fx' current' frames'
      assume le: "fst loc \<le> end_date"
        and body: "(Inr (current', frames'), fx') = loop_body cfg remote time_unit end_date loc fx"
      have "fst (current', frames') = min (fst loc + (MAX_DAYS - 1)) end_date + 1"
        using loop_body_cursor [OF body [symmetric]] .
      with le have "nat (end_date + 1 - fst (current', frames')) < nat (end_date + 1 - fst loc)"
        by (simp add: MAX_DAYS_def)
      then show "fetch_loop_dom (cfg, remote, time_unit, end_date, (current', frames'), fx')"
        by (rule less)
    qed
  qed
  have ok: "\<exists>fr fx''. try_chunk cfg remote time_unit current chunk_end all_frames fx
      = (Inr (chunk_end + 1, fr), fx'')"
    if "fetch_single_chunk cfg remote time_unit current chunk_end fx = (Inr df, fx')" for df fx'
    by (simp add: try_chunk_success [OF that])
  have err: "\<exists>fr fx''. try_chunk cfg remote time_unit current chunk_end all_frames fx
      = (Inr (chunk_end + 1, fr), fx'')"
    if "fetch_single_chunk cfg remote time_unit current chunk_end fx = (Inl (HTTPError c), fx')"
    for c fx'
    using day_by_day_cursor [of cfg remote time_unit current chunk_end all_frames fx']
    by (cases "day_by_day cfg remote time_unit current chunk_end all_frames fx'")
      (auto simp: try_chunk_http_error [OF that])
  have step: "fst loc < fst loc' \<and> fst loc' = min (fst loc + (MAX_DAYS - 1)) end_date + 1"
    if "fst loc \<le> end_date" and "loop_body cfg remote time_unit end_date loc fx = (Inr loc', fx')"
    for loc' fx'
    using that(1) loop_body_cursor [OF that(2)] by (simp add: MAX_DAYS_def)
  have exit: "end_date < fst loc' \<and> (fst loc \<le> end_date \<longrightarrow> fst loc' = end_date + 1)"
    if "fetch_loop cfg remote time_unit end_date loc fx = (Inr loc', fx')" for loc' fx'
  proof (cases "fst loc \<le> end_date")
    case True
    then have "chunks (fst loc) end_date \<noteq> []"
      by (simp add: chunks_Cons)
    with run_chunks_cursor [OF that [unfolded fetch_loop_chunks]] chunks_last [OF True]
    show ?thesis
      by simp
  next
    case False
    with that show ?thesis
      by (simp add: fetch_loop_chunks chunks_Nil)
  qed
  have "length (concat (map days_of (chunks (fst loc) end_date)))
      \<ge> length (chunks (fst loc) end_date)"
  proof -
    have "1 \<le> length (days_of c)" if "c \<in> set (chunks (fst loc) end_date)" for c
      using chunks_bounds [OF that] by (simp add: days_of_def) linarith
    then have "sum_list (map (\<lambda>c. 1) (chunks (fst loc) end_date))
        \<le> sum_list (map (\<lambda>c. length (days_of c)) (chunks (fst loc) end_date))"
      by (intro sum_list_mono) simp
    then show ?thesis
      by (simp add: length_concat comp_def sum_list_triv)
  qed
  then have count: "length (chunks (fst loc) end_date) \<le> nat (end_date + 1 - fst loc)"
    by (simp add: chunks_days algebra_simps)
  from dom ok err step exit count show ?thesis
    by blast
qed

lemmas run_simps =
  fetch_energy_chunked_def fetch_loop_chunks chunks_Cons chunks_Nil MAX_DAYS_def
  try_chunk_def day_by_day_def fetch_single_chunk_def raise_for_status_def service_def fx0_def
  upto_rec1

text \<open>A service that refuses every request, over forty days: two iterations, each
  through the handler, and the cursor ends on day 41. The same range against a service
  that answers takes the other branch.\<close>

theorem fetch_loop_terminates_witness:
  "fst (fetch_single_chunk cfg0 (service rejecting) ''DAY'' 1 31 fx0) = Inl (HTTPError 500)
   \<and> fst (try_chunk cfg0 (service rejecting) ''DAY'' 1 31 [] fx0) = Inr (32, [])
   \<and> fst (loop_body cfg0 (service rejecting) ''DAY'' 40 (1, []) fx0) = Inr (32, [])
   \<and> fetch_loop_dom (cfg0, service rejecting, ''DAY'', 40, (1, []), fx0)
   \<and> fst (fetch_loop cfg0 (service rejecting) ''DAY'' 40 (1, []) fx0) = Inr (41, [])
   \<and> length (chunks 1 40) \<le> nat (40 + 1 - 1)
   \<and> fst (fetch_single_chunk cfg0 (service no_data) ''DAY'' 1 31 fx0) = Inr []
   \<and> fst (try_chunk cfg0 (service no_data) ''DAY'' 1 31 [] fx0) = Inr (32, [])
   \<and> fetch_loop_dom (cfg0, service no_data, ''DAY'', 40, (1, []), fx0)"
proof -
  have single: "fst (fetch_single_chunk cfg0 (service rejecting) ''DAY'' 1 31 fx0) = Inl (HTTPError 500)"
    by (simp add: run_simps rejecting_def)
  have chunk: "fst (try_chunk cfg0 (service rejecting) ''DAY'' 1 31 [] fx0) = Inr (32, [])"
    by (simp add: run_simps rejecting_def)
  have body: "fst (loop_body cfg0 (service rejecting) ''DAY'' 40 (1, []) fx0) = Inr (32, [])"
    by (simp add: loop_body_def run_simps rejecting_def)
  have run: "fst (fetch_loop cfg0 (service rejecting) ''DAY'' 40 (1, []) fx0) = Inr (41, [])"
    by (simp add: run_simps rejecting_def)
  have single': "fst (fetch_single_chunk cfg0 (service no_data) ''DAY'' 1 31 fx0) = Inr []"
    by (simp add: run_simps no_data_def)
  have chunk': "fst (try_chunk cfg0 (service no_data) ''DAY'' 1 31 [] fx0) = Inr (32, [])"
    by (simp add: run_simps no_data_def)
  from fetch_loop_terminates [of cfg0 "service rejecting" "''DAY''" 40 "(1, [])" fx0 1 31 "[]"]
    fetch_loop_terminates [of cfg0 "service no_data" "''DAY''" 40 "(1, [])" fx0 1 31 "[]"]
    single chunk body run single' chunk'
  show ?thesis
    by simp
qed

subsection \<open>The fallback and a direct fetch day by day\<close>

lemma retry_days_direct:
  "direct_per_day cfg remote time_unit ds fx = (Inr rows, fx2) \<Longrightarrow>
    \<exists>frs. retry_days cfg remote time_unit ds all_frames (fx\<lparr>warnings := ws\<rparr>)
        = (all_frames @ frs, fx2\<lparr>warnings := ws\<rparr>)
      \<and> concat frs = rows"
proof (induction ds arbitrary: fx all_frames rows)
  case Nil
  then show ?case
    by simp
next
  case (Cons d ds)
  obtain r fx1 where day: "fetch_single_chunk cfg remote time_unit d d fx = (r, fx1)"
    by (cases "fetch_single_chunk cfg remote time_unit d d fx")
  with Cons.prems obtain df where r: "r = Inr df"
    by (cases r) simp_all
  obtain r' fx' where rest: "direct_per_day cfg remote time_unit ds fx1 = (r', fx')"
    by (cases "direct_per_day cfg remote time_unit ds fx1")
  with Cons.prems day r obtain rows' where r': "r' = Inr rows'" and rows: "rows = df @ rows'"
    and fx': "fx' = fx2"
    by (cases r') auto
  let ?frames1 = "if df \<noteq> [] then all_frames @ [df] else all_frames"
  from Cons.IH [OF rest [unfolded r' fx'], of ?frames1] obtain frs
    where step: "retry_days cfg remote time_unit ds ?frames1 (fx1\<lparr>warnings := ws\<rparr>)
        = (?frames1 @ frs, fx2\<lparr>warnings := ws\<rparr>)"
      and frs: "concat frs = rows'"
    by blast
  have "retry_days cfg remote time_unit (d # ds) all_frames (fx\<lparr>warnings := ws\<rparr>)
      = (all_frames @ (if df \<noteq> [] then [df] else []) @ frs, fx2\<lparr>warnings := ws\<rparr>)"
    using step by (simp add: fetch_single_chunk_warnings day r)
  moreover have "concat ((if df \<noteq> [] then [df] else []) @ frs) = rows"
    by (simp add: frs rows)
  ultimately show ?case
    by blast
qed

text \<open>
  The fallback is right whenever it runs. Take a sub-range whose fetch fails, and let
  the days of the sub-range, fetched one by one from the state the failed fetch leaves,
  all succeed and give \<open>rows\<close>. Then the fallback of lines 40 to 48 adds frames to
  \<^verbatim>\<open>all_frames\<close> whose rows, in order, are exactly \<open>rows\<close>; it issues the same
  requests, and gives one warning, for the sub-range. The \<^verbatim>\<open>try\<close> statement runs this
  fallback when the failure is an \<^verbatim>\<open>HTTPError\<close>.
\<close>

theorem fallback_equals_direct:
  assumes "fetch_single_chunk cfg remote time_unit current chunk_end fx = (Inl e, fx1)"
    and "direct_per_day cfg remote time_unit [current..chunk_end] fx1 = (Inr rows, fx2)"
  shows "\<exists>frs.
      day_by_day cfg remote time_unit current chunk_end all_frames fx1
        = ((chunk_end + 1, all_frames @ frs),
           fx2\<lparr>warnings := warnings fx1 @ [Failed current chunk_end]\<rparr>)
    \<and> concat frs = rows
    \<and> (\<forall>c. e = HTTPError c \<longrightarrow>
         try_chunk cfg remote time_unit current chunk_end all_frames fx
           = (Inr (chunk_end + 1, all_frames @ frs),
              fx2\<lparr>warnings := warnings fx1 @ [Failed current chunk_end]\<rparr>))"
proof -
  from retry_days_direct [OF assms(2), of all_frames "warnings fx1 @ [Failed current chunk_end]"]
  obtain frs where
    days: "retry_days cfg remote time_unit [current..chunk_end] all_frames
        (fx1\<lparr>warnings := warnings fx1 @ [Failed current chunk_end]\<rparr>)
      = (all_frames @ frs, fx2\<lparr>warnings := warnings fx1 @ [Failed current chunk_end]\<rparr>)"
    and rows: "concat frs = rows"
    by blast
  have fallback: "day_by_day cfg remote time_unit current chunk_end all_frames fx1
      = ((chunk_end + 1, all_frames @ frs),
         fx2\<lparr>warnings := warnings fx1 @ [Failed current chunk_end]\<rparr>)"
    by (simp add: day_by_day_def days)
  have "try_chunk cfg remote time_unit current chunk_end all_frames fx
      = (Inr (chunk_end + 1, all_frames @ frs),
         fx2\<lparr>warnings := warnings fx1 @ [Failed current chunk_end]\<rparr>)"
    if "e = HTTPError c" for c
    using assms(1) that by (simp add: try_chunk_def fallback)
  with fallback rows show ?thesis
    by blast
qed

text \<open>Three days refused as a range and answered one by one.\<close>

theorem fallback_equals_direct_witness:
  "fst (fetch_single_chunk cfg0 (service (days_only (Reply 500 NotJSON))) ''DAY'' 1 3 fx0)
     = Inl (HTTPError 500)
   \<and> fst (direct_per_day cfg0 (service (days_only (Reply 500 NotJSON))) ''DAY'' [1..3]
        (snd (fetch_single_chunk cfg0 (service (days_only (Reply 500 NotJSON))) ''DAY'' 1 3 fx0)))
     = Inr (map (normalize \<circ> sample_of) [1, 2, 3])
   \<and> (\<exists>frs fx'. try_chunk cfg0 (service (days_only (Reply 500 NotJSON))) ''DAY'' 1 3 [] fx0
         = (Inr (4, frs), fx')
       \<and> concat frs = map (normalize \<circ> sample_of) [1, 2, 3]
       \<and> warnings fx' = [Failed 1 3])"
proof -
  let ?remote = "service (days_only (Reply 500 NotJSON))"
  define fx1 where "fx1 = \<lparr> warnings = [], requests = [energy_request cfg0 ''DAY'' 1 3], world = Suc 0 \<rparr>"
  define fx2 where "fx2 = \<lparr> warnings = [],
    requests = [energy_request cfg0 ''DAY'' 1 3, energy_request cfg0 ''DAY'' 1 1, energy_request cfg0 ''DAY'' 2 2, energy_request cfg0 ''DAY'' 3 3],
    world = Suc (Suc (Suc (Suc 0))) \<rparr>"
  have h1: "fetch_single_chunk cfg0 ?remote ''DAY'' 1 3 fx0 = (Inl (HTTPError 500), fx1)"
    by (simp add: run_simps days_only_def fx1_def)
  have h2: "direct_per_day cfg0 ?remote ''DAY'' [1..3] fx1
      = (Inr (map (normalize \<circ> sample_of) [1, 2, 3]), fx2)"
    by (simp add: run_simps days_only_def all_data_def fx1_def fx2_def)
  from fallback_equals_direct [OF h1 h2, of "[]"] h1 h2 show ?thesis
    by (auto simp: fx1_def)
qed

text \<open>
  Claim C4. The sub-range of days 1 to 3 is not answered in time, while each of its
  days, asked alone, is answered. A direct fetch day by day gives three rows; the
  \<^verbatim>\<open>try\<close> statement does not reach its fallback, no row is accumulated, and the
  timeout leaves \<^verbatim>\<open>fetch_energy_chunked\<close>.
\<close>

theorem fallback_not_entered_on_timeout:
  "fst (fetch_single_chunk cfg0 (service (days_only TimedOut)) ''DAY'' 1 3 fx0) = Inl Timeout
   \<and> fst (direct_per_day cfg0 (service (days_only TimedOut)) ''DAY'' [1..3]
        (snd (fetch_single_chunk cfg0 (service (days_only TimedOut)) ''DAY'' 1 3 fx0)))
     = Inr (map (normalize \<circ> sample_of) [1, 2, 3])
   \<and> fst (try_chunk cfg0 (service (days_only TimedOut)) ''DAY'' 1 3 [] fx0) = Inl Timeout
   \<and> fetch_energy_chunked cfg0 (service (days_only TimedOut)) ''DAY'' 1 3 fx0
     = (Inl Timeout, \<lparr> warnings = [], requests = [energy_request cfg0 ''DAY'' 1 3], world = 1 \<rparr>)"
  by (simp add: run_simps days_only_def all_data_def)

subsection \<open>Frames and warnings only grow\<close>

lemma retry_days_grows:
  "\<exists>frs ws. fst (retry_days cfg remote time_unit ds all_frames fx) = all_frames @ frs
     \<and> warnings (snd (retry_days cfg remote time_unit ds all_frames fx)) = warnings fx @ ws"
proof (induction ds arbitrary: all_frames fx)
  case Nil
  show ?case
    by simp
next
  case (Cons d ds)
  obtain r fx1 where day: "fetch_single_chunk cfg remote time_unit d d fx = (r, fx1)"
    by (cases "fetch_single_chunk cfg remote time_unit d d fx")
  have w1: "warnings fx1 = warnings fx"
    using fetch_single_chunk_effects(1) [of cfg remote time_unit d d fx] by (simp add: day)
  show ?case
  proof (cases r)
    case (Inl sub_e)
    from Cons.IH [of all_frames "fx1\<lparr>warnings := warnings fx1 @ [Skipped d sub_e]\<rparr>"]
    show ?thesis
      by (auto simp: day Inl w1)
  next
    case (Inr df_day)
    from Cons.IH [of "if df_day \<noteq> [] then all_frames @ [df_day] else all_frames" fx1]
    show ?thesis
      by (auto simp: day Inr w1)
  qed
qed

lemma try_chunk_grows:
  assumes "try_chunk cfg remote time_unit current chunk_end all_frames fx = (Inr loc', fx')"
  shows "\<exists>frs ws. snd loc' = all_frames @ frs \<and> warnings fx' = warnings fx @ ws"
proof -
  obtain r fx1 where chunk: "fetch_single_chunk cfg remote time_unit current chunk_end fx = (r, fx1)"
    by (cases "fetch_single_chunk cfg remote time_unit current chunk_end fx")
  have w1: "warnings fx1 = warnings fx"
    using fetch_single_chunk_effects(1) [of cfg remote time_unit current chunk_end fx]
    by (simp add: chunk)
  show ?thesis
  proof (cases r)
    case (Inr df)
    with assms chunk w1 show ?thesis
      by (auto simp: try_chunk_def)
  next
    case (Inl e)
    with assms chunk obtain c where e: "e = HTTPError c"
      by (cases e) (simp_all add: try_chunk_def)
    from retry_days_grows [of cfg remote time_unit "[current..chunk_end]" all_frames
        "fx1\<lparr>warnings := warnings fx1 @ [Failed current chunk_end]\<rparr>"]
    obtain frs ws where
      "fst (retry_days cfg remote time_unit [current..chunk_end] all_frames
          (fx1\<lparr>warnings := warnings fx1 @ [Failed current chunk_end]\<rparr>)) = all_frames @ frs"
      "warnings (snd (retry_days cfg remote time_unit [current..chunk_end] all_frames
          (fx1\<lparr>warnings := warnings fx1 @ [Failed current chunk_end]\<rparr>)))
        = (warnings fx1 @ [Failed current chunk_end]) @ ws"
      by auto
    with assms chunk Inl e w1 show ?thesis
      by (auto simp: try_chunk_def day_by_day_def split: prod.splits)
  qed
qed

lemma run_chunks_grows:
  "run_chunks cfg remote time_unit cs loc fx = (Inr loc', fx') \<Longrightarrow>
    \<exists>frs ws. snd loc' = snd loc @ frs \<and> warnings fx' = warnings fx @ ws"
proof (induction cs arbitrary: loc fx)
  case Nil
  then show ?case
    by simp
next
  case (Cons c cs)
  obtain r fx1 where tr: "try_chunk cfg remote time_unit (fst c) (snd c) (snd loc) fx = (r, fx1)"
    by (cases "try_chunk cfg remote time_unit (fst c) (snd c) (snd loc) fx")
  with Cons.prems obtain loc1 where r: "r = Inr loc1"
    by (cases r) simp_all
  with Cons.prems tr have rest: "run_chunks cfg remote time_unit cs loc1 fx1 = (Inr loc', fx')"
    by simp
  from try_chunk_grows [OF tr [unfolded r]] Cons.IH [OF rest] show ?case
    by auto
qed

lemma run_chunks_append:
  "run_chunks cfg remote time_unit (cs @ cs') loc fx =
    (case run_chunks cfg remote time_unit cs loc fx of
       (Inr loc', fx') \<Rightarrow> run_chunks cfg remote time_unit cs' loc' fx'
     | (Inl e, fx') \<Rightarrow> (Inl e, fx'))"
  by (induction cs arbitrary: loc fx) (auto split: prod.splits sum.splits)

subsection \<open>One day lost inside a sub-range\<close>

lemma day_results_days: "map fst (day_results cfg remote time_unit ds fx) = ds"
  by (induction ds arbitrary: fx) (auto split: prod.splits sum.splits)

text \<open>The inner loop in terms of the outcomes of its fetches.\<close>

lemma retry_days_results:
  "fst (retry_days cfg remote time_unit ds all_frames fx)
      = all_frames @ concat (map kept_frames (day_results cfg remote time_unit ds fx))
    \<and> warnings (snd (retry_days cfg remote time_unit ds all_frames fx))
      = warnings fx @ concat (map skip_warnings (day_results cfg remote time_unit ds fx))"
proof (induction ds arbitrary: all_frames fx)
  case Nil
  show ?case
    by simp
next
  case (Cons d ds)
  obtain r fx1 where day: "fetch_single_chunk cfg remote time_unit d d fx = (r, fx1)"
    by (cases "fetch_single_chunk cfg remote time_unit d d fx")
  have w1: "warnings fx1 = warnings fx"
    using fetch_single_chunk_effects(1) [of cfg remote time_unit d d fx] by (simp add: day)
  show ?case
  proof (cases r)
    case (Inl sub_e)
    from Cons.IH [of all_frames "fx1\<lparr>warnings := warnings fx1 @ [Skipped d sub_e]\<rparr>"]
    show ?thesis
      by (simp add: day Inl w1 kept_frames_def skip_warnings_def)
  next
    case (Inr df_day)
    from Cons.IH [of "if df_day \<noteq> [] then all_frames @ [df_day] else all_frames" fx1]
    show ?thesis
      by (simp add: day Inr w1 kept_frames_def skip_warnings_def)
  qed
qed

text \<open>Outcomes where day \<open>d0\<close> fails and every other day gives non-empty rows.\<close>

lemma one_lost_results:
  assumes "\<forall>(d, r) \<in> set rs.
      (d = d0 \<longrightarrow> isl r) \<and> (d \<noteq> d0 \<longrightarrow> r = Inr (day_rows d) \<and> day_rows d \<noteq> [])"
  shows "concat (map kept_frames rs) = map day_rows (filter (\<lambda>d. d \<noteq> d0) (map fst rs))
    \<and> (\<exists>es. concat (map skip_warnings rs) = map (Skipped d0) es
          \<and> length es = length (filter (\<lambda>d. d = d0) (map fst rs)))"
  using assms
proof (induction rs)
  case Nil
  show ?case
    by simp
next
  case (Cons res rs)
  obtain d r where res: "res = (d, r)"
    by (cases res)
  from Cons.prems have rest: "\<forall>(d, r) \<in> set rs.
      (d = d0 \<longrightarrow> isl r) \<and> (d \<noteq> d0 \<longrightarrow> r = Inr (day_rows d) \<and> day_rows d \<noteq> [])"
    by simp
  from Cons.IH [OF rest] obtain es where
    frames: "concat (map kept_frames rs) = map day_rows (filter (\<lambda>d. d \<noteq> d0) (map fst rs))"
    and warned: "concat (map skip_warnings rs) = map (Skipped d0) es"
    and count: "length es = length (filter (\<lambda>d. d = d0) (map fst rs))"
    by blast
  show ?case
  proof (cases "d = d0")
    case True
    with Cons.prems res obtain e where r: "r = Inl e"
      by (cases r) auto
    have "concat (map skip_warnings (res # rs)) = map (Skipped d0) (e # es)"
      by (simp add: res r True skip_warnings_def warned)
    moreover have "length (e # es) = length (filter (\<lambda>d. d = d0) (map fst (res # rs)))"
      by (simp add: res True count)
    moreover have "concat (map kept_frames (res # rs))
        = map day_rows (filter (\<lambda>d. d \<noteq> d0) (map fst (res # rs)))"
      by (simp add: res r True kept_frames_def frames)
    ultimately show ?thesis
      by blast
  next
    case False
    with Cons.prems res have r: "r = Inr (day_rows d)" and ne: "day_rows d \<noteq> []"
      by auto
    have "concat (map skip_warnings (res # rs)) = map (Skipped d0) es"
      by (simp add: res r skip_warnings_def warned)
    moreover have "length es = length (filter (\<lambda>d. d = d0) (map fst (res # rs)))"
      by (simp add: res False count)
    moreover have "concat (map kept_frames (res # rs))
        = map day_rows (filter (\<lambda>d. d \<noteq> d0) (map fst (res # rs)))"
      by (simp add: res r ne False kept_frames_def frames)
    ultimately show ?thesis
      by blast
  qed
qed

text \<open>
  Claim C5, as amended. Take a run of the function that returns a frame, and in its
  plan a sub-range of at least two days. Let the fetch of that sub-range, in the state
  \<open>fx1\<close> in which the run makes it (the state left by the sub-ranges before it), be
  refused with an HTTP error status. Let the fetches of the fallback, each in the state
  in which the run makes it, fail for the one day \<open>d0\<close> and give the non-empty rows
  \<open>day_rows d\<close> for every other day \<open>d\<close> of the sub-range. Then the frame returned holds
  the rows of the other days of the sub-range, in day order and next to each other; the
  call has warned of the sub-range and then of the lost day; and the frame is not
  empty. Nothing is asked of the remote service in any other state.
\<close>

theorem one_lost_day:
  assumes plan: "chunks start_date end_date = earlier @ (current, chunk_end) # later"
    and two_days: "current < chunk_end"
    and returns: "fetch_energy_chunked cfg remote time_unit start_date end_date fx
      = (Inr dataset, fx')"
    and tried: "fx1 = snd (run_chunks cfg remote time_unit earlier (start_date, []) fx)"
    and refused: "fetch_single_chunk cfg remote time_unit current chunk_end fx1
      = (Inl (HTTPError c), fx2)"
    and in_chunk: "current \<le> d0 \<and> d0 \<le> chunk_end"
    and days: "\<forall>(d, r) \<in> set (day_results cfg remote time_unit [current..chunk_end]
        (fx2\<lparr>warnings := warnings fx2 @ [Failed current chunk_end]\<rparr>)).
      (d = d0 \<longrightarrow> isl r) \<and> (d \<noteq> d0 \<longrightarrow> r = Inr (day_rows d) \<and> day_rows d \<noteq> [])"
  shows "(\<exists>pre post. dataset =
        pre @ concat (map day_rows (filter (\<lambda>d. d \<noteq> d0) [current..chunk_end])) @ post)
    \<and> (\<exists>ws ws' e. warnings fx' =
        warnings fx @ ws @ [Failed current chunk_end, Skipped d0 e] @ ws')
    \<and> dataset \<noteq> []"
proof -
  let ?days = "[current..chunk_end]"
  let ?kept = "map day_rows (filter (\<lambda>d. d \<noteq> d0) ?days)"
  let ?fxw = "fx2\<lparr>warnings := warnings fx2 @ [Failed current chunk_end]\<rparr>"
  let ?rs = "day_results cfg remote time_unit ?days ?fxw"
  from returns obtain loc where
    run: "run_chunks cfg remote time_unit (earlier @ (current, chunk_end) # later)
        (start_date, []) fx = (Inr loc, fx')"
    and dataset: "dataset = concat (snd loc)"
    by (auto simp: fetch_energy_chunked_def fetch_loop_chunks plan Let_def
        split: prod.splits sum.splits if_splits)
  from run obtain loc1 fxa where
    before: "run_chunks cfg remote time_unit earlier (start_date, []) fx = (Inr loc1, fxa)"
    and from_chunk: "run_chunks cfg remote time_unit ((current, chunk_end) # later) loc1 fxa
      = (Inr loc, fx')"
    by (auto simp: run_chunks_append split: prod.splits sum.splits)
  from tried before have fx1: "fxa = fx1"
    by simp
  from from_chunk obtain loc2 fxb where
    this_chunk: "try_chunk cfg remote time_unit current chunk_end (snd loc1) fx1 = (Inr loc2, fxb)"
    and after: "run_chunks cfg remote time_unit later loc2 fxb = (Inr loc, fx')"
    by (auto simp: fx1 split: prod.splits sum.splits)
  have w2: "warnings fx2 = warnings fx1"
    using fetch_single_chunk_effects(1) [of cfg remote time_unit current chunk_end fx1]
    by (simp add: refused)
  have results: "map fst ?rs = ?days"
    by (rule day_results_days)
  from one_lost_results [OF days] results obtain es where
    kept: "concat (map kept_frames ?rs) = ?kept"
    and skipped: "concat (map skip_warnings ?rs) = map (Skipped d0) es"
    and count: "length es = length (filter (\<lambda>d. d = d0) ?days)"
    by auto
  have "filter (\<lambda>d. d = d0) ?days = [d0]"
    using in_chunk by (simp add: filter_eq_Cons_iff upto_split3 [of current d0 chunk_end])
  with count obtain e where es: "es = [e]"
    by (cases es) simp_all
  from retry_days_results [of cfg remote time_unit ?days "snd loc1" ?fxw]
  have frames: "fst (retry_days cfg remote time_unit ?days (snd loc1) ?fxw) = snd loc1 @ ?kept"
    and warned: "warnings (snd (retry_days cfg remote time_unit ?days (snd loc1) ?fxw))
      = warnings ?fxw @ map (Skipped d0) [e]"
    by (simp_all only: kept skipped es)
  have fallback: "day_by_day cfg remote time_unit current chunk_end (snd loc1) fx2
      = ((chunk_end + 1, fst (retry_days cfg remote time_unit ?days (snd loc1) ?fxw)),
         snd (retry_days cfg remote time_unit ?days (snd loc1) ?fxw))"
    by (simp only: day_by_day_def Let_def split_beta)
  have "try_chunk cfg remote time_unit current chunk_end (snd loc1) fx1
      = (Inr (chunk_end + 1, fst (retry_days cfg remote time_unit ?days (snd loc1) ?fxw)),
         snd (retry_days cfg remote time_unit ?days (snd loc1) ?fxw))"
    by (simp only: try_chunk_http_error [OF refused] fallback fst_conv snd_conv)
  with this_chunk have "snd loc2 = fst (retry_days cfg remote time_unit ?days (snd loc1) ?fxw)"
    and "fxb = snd (retry_days cfg remote time_unit ?days (snd loc1) ?fxw)"
    by auto
  then have loc2: "snd loc2 = snd loc1 @ ?kept"
    and wb': "warnings fxb = warnings ?fxw @ map (Skipped d0) [e]"
    by (simp_all only: frames warned)
  from wb' have wb: "warnings fxb = warnings fx1 @ [Failed current chunk_end, Skipped d0 e]"
    by (simp add: w2)
  from run_chunks_grows [OF before] obtain ws where w1: "warnings fx1 = warnings fx @ ws"
    by (auto simp: fx1)
  from run_chunks_grows [OF after] obtain frs ws' where
    loc: "snd loc = snd loc2 @ frs" and w: "warnings fx' = warnings fxb @ ws'"
    by auto
  have contained: "dataset = concat (snd loc1) @ concat ?kept @ concat frs"
    by (simp add: dataset loc loc2)
  have warned_both: "warnings fx' = warnings fx @ ws @ [Failed current chunk_end, Skipped d0 e] @ ws'"
    by (simp add: w wb w1)
  obtain d where d: "d \<in> set ?days" "d \<noteq> d0"
  proof (cases "d0 = current")
    case True
    with two_days have "chunk_end \<in> set ?days" "chunk_end \<noteq> d0"
      by simp_all
    then show ?thesis
      by (rule that)
  next
    case False
    with two_days have "current \<in> set ?days" "current \<noteq> d0"
      by simp_all
    then show ?thesis
      by (rule that)
  qed
  have "fst ` set ?rs = set ?days"
    using arg_cong [OF results, of set] by (simp only: set_map)
  with d(1) have "d \<in> fst ` set ?rs"
    by blast
  then obtain r where "(d, r) \<in> set ?rs"
    by force
  with days d(2) have "day_rows d \<noteq> []"
    by auto
  moreover from d have "day_rows d \<in> set ?kept"
    by auto
  ultimately have "concat ?kept \<noteq> []"
    by auto
  with contained have "dataset \<noteq> []"
    by simp
  with contained warned_both show ?thesis
    by blast
qed

text \<open>
  The range of days 1 to 3 is refused at the first request, which the service would
  answer at any later one; in the fallback, days 1 and 3 are answered and day 2 is not
  answered in time.
\<close>

theorem one_lost_day_witness:
  "chunks 1 3 = [] @ (1, 3) # []
   \<and> fetch_single_chunk cfg0 flaky ''DAY'' 1 3 fx0
       = (Inl (HTTPError 503),
          \<lparr> warnings = [], requests = [energy_request cfg0 ''DAY'' 1 3], world = 1 \<rparr>)
   \<and> day_results cfg0 flaky ''DAY'' [1..3]
        \<lparr> warnings = [Failed 1 3], requests = [energy_request cfg0 ''DAY'' 1 3], world = 1 \<rparr>
       = [(1, Inr [normalize (sample_of 1)]), (2, Inl Timeout), (3, Inr [normalize (sample_of 3)])]
   \<and> fetch_energy_chunked cfg0 flaky ''DAY'' 1 3 fx0
       = (Inr [normalize (sample_of 1), normalize (sample_of 3)],
          \<lparr> warnings = [Failed 1 3, Skipped 2 Timeout],
            requests = [energy_request cfg0 ''DAY'' 1 3, energy_request cfg0 ''DAY'' 1 1,
              energy_request cfg0 ''DAY'' 2 2, energy_request cfg0 ''DAY'' 3 3],
            world = 4 \<rparr>)
   \<and> fst (fetch_single_chunk cfg0 flaky ''DAY'' 1 3
        (snd (fetch_single_chunk cfg0 flaky ''DAY'' 1 3 fx0)))
       = Inr (map (normalize \<circ> sample_of) [1, 2, 3])
   \<and> (\<exists>pre post. [normalize (sample_of 1), normalize (sample_of 3)] =
        pre @ concat (map (\<lambda>d. [normalize (sample_of d)]) (filter (\<lambda>d. d \<noteq> 2) [1..3])) @ post)"
proof -
  let ?fx2 = "\<lparr> warnings = [], requests = [energy_request cfg0 ''DAY'' 1 3], world = 1 \<rparr>
    :: nat effects"
  let ?fx' = "\<lparr> warnings = [Failed 1 3, Skipped 2 Timeout],
    requests = [energy_request cfg0 ''DAY'' 1 3, energy_request cfg0 ''DAY'' 1 1,
      energy_request cfg0 ''DAY'' 2 2, energy_request cfg0 ''DAY'' 3 3],
    world = 4 \<rparr> :: nat effects"
  have plan: "chunks 1 3 = [] @ (1, 3) # []"
    by (simp add: chunks_Cons chunks_Nil MAX_DAYS_def)
  have two_days: "(1::int) < 3"
    by simp
  have returns: "fetch_energy_chunked cfg0 flaky ''DAY'' 1 3 fx0
      = (Inr [normalize (sample_of 1), normalize (sample_of 3)], ?fx')"
    by (simp add: run_simps flaky_def all_data_def)
  have tried: "fx0 = snd (run_chunks cfg0 flaky ''DAY'' [] (1, []) fx0)"
    by simp
  have refused: "fetch_single_chunk cfg0 flaky ''DAY'' 1 3 fx0 = (Inl (HTTPError 503), ?fx2)"
    by (simp add: run_simps flaky_def)
  have in_chunk: "(1::int) \<le> 2 \<and> (2::int) \<le> 3"
    by simp
  have results: "day_results cfg0 flaky ''DAY'' [1..3] (?fx2\<lparr>warnings := warnings ?fx2 @ [Failed 1 3]\<rparr>)
      = [(1, Inr [normalize (sample_of 1)]), (2, Inl Timeout), (3, Inr [normalize (sample_of 3)])]"
    by (simp add: run_simps flaky_def all_data_def)
  have days: "\<forall>(d, r) \<in> set (day_results cfg0 flaky ''DAY'' [1..3]
        (?fx2\<lparr>warnings := warnings ?fx2 @ [Failed 1 3]\<rparr>)).
      (d = 2 \<longrightarrow> isl r)
      \<and> (d \<noteq> 2 \<longrightarrow> r = Inr [normalize (sample_of d)] \<and> [normalize (sample_of d)] \<noteq> [])"
    unfolding results by simp
  have again: "fst (fetch_single_chunk cfg0 flaky ''DAY'' 1 3
      (snd (fetch_single_chunk cfg0 flaky ''DAY'' 1 3 fx0)))
      = Inr (map (normalize \<circ> sample_of) [1, 2, 3])"
    by (simp add: run_simps flaky_def all_data_def Let_def)
  from one_lost_day [OF plan two_days returns tried refused in_chunk days]
    plan refused results returns again
  show ?thesis
    by simp
qed

text \<open>
  The claim as it is written fails twice. A range of the single day 5, refused at both
  requests, gives an empty frame. And when the sub-range 1 to 3 is not answered in time
  rather than refused, the exception leaves the function and there is no frame.
\<close>

theorem one_lost_day_counterexample:
  "fetch_energy_chunked cfg0 (service rejecting) ''DAY'' 5 5 fx0
     = (Inr [],
        \<lparr> warnings = [Failed 5 5, Skipped 5 (HTTPError 500)],
          requests = [energy_request cfg0 ''DAY'' 5 5, energy_request cfg0 ''DAY'' 5 5], world = 2 \<rparr>)
   \<and> fetch_energy_chunked cfg0 (service (one_day_lost TimedOut 2)) ''DAY'' 1 3 fx0
     = (Inl Timeout, \<lparr> warnings = [], requests = [energy_request cfg0 ''DAY'' 1 3], world = 1 \<rparr>)"
  by (simp add: run_simps rejecting_def one_day_lost_def)

subsection \<open>Failures of the fetch\<close>

text \<open>The inner loop has a handler for every exception: it always completes, and a
  day that fails adds one warning and no frame.\<close>

lemma retry_days_all_fail:
  assumes "\<forall>d \<in> set ds. \<forall>fx. isl (fst (fetch_single_chunk cfg remote time_unit d d fx))"
  shows "fst (retry_days cfg remote time_unit ds all_frames fx) = all_frames
    \<and> length (warnings (snd (retry_days cfg remote time_unit ds all_frames fx)))
        = length (warnings fx) + length ds"
  using assms
proof (induction ds arbitrary: fx)
  case Nil
  show ?case
    by simp
next
  case (Cons d ds)
  obtain r fx1 where day: "fetch_single_chunk cfg remote time_unit d d fx = (r, fx1)"
    by (cases "fetch_single_chunk cfg remote time_unit d d fx")
  have w1: "warnings fx1 = warnings fx"
    using fetch_single_chunk_effects(1) [of cfg remote time_unit d d fx] by (simp add: day)
  from Cons.prems day obtain e where r: "r = Inl e"
    by (cases r) (auto dest: spec [of _ fx])
  have rest: "\<forall>d \<in> set ds. \<forall>fx. isl (fst (fetch_single_chunk cfg remote time_unit d d fx))"
    using Cons.prems by simp
  from Cons.IH [OF rest, of "fx1\<lparr>warnings := warnings fx1 @ [Skipped d e]\<rparr>"] show ?case
    by (simp add: day r w1)
qed

lemma run_chunks_all_fail:
  assumes "\<forall>c \<in> set cs. \<forall>fx. \<exists>code.
      fst (fetch_single_chunk cfg remote time_unit (fst c) (snd c) fx) = Inl (HTTPError code)"
    and "\<forall>c \<in> set cs. \<forall>d \<in> set (days_of c). \<forall>fx.
      isl (fst (fetch_single_chunk cfg remote time_unit d d fx))"
  shows "\<exists>loc' fx'. run_chunks cfg remote time_unit cs loc fx = (Inr loc', fx')
    \<and> snd loc' = snd loc
    \<and> length (warnings fx')
        = length (warnings fx) + length cs + length (concat (map days_of cs))"
  using assms
proof (induction cs arbitrary: loc fx)
  case Nil
  show ?case
    by simp
next
  case (Cons c cs)
  obtain code fx1 where failed:
    "fetch_single_chunk cfg remote time_unit (fst c) (snd c) fx = (Inl (HTTPError code), fx1)"
    using Cons.prems(1) [rule_format, of c fx]
    by (cases "fetch_single_chunk cfg remote time_unit (fst c) (snd c) fx") auto
  have w1: "warnings fx1 = warnings fx"
    using fetch_single_chunk_effects(1) [of cfg remote time_unit "fst c" "snd c" fx]
    by (simp add: failed)
  let ?fxw = "fx1\<lparr>warnings := warnings fx1 @ [Failed (fst c) (snd c)]\<rparr>"
  obtain frames2 fx2 where days:
    "retry_days cfg remote time_unit [fst c..snd c] (snd loc) ?fxw = (frames2, fx2)"
    by (cases "retry_days cfg remote time_unit [fst c..snd c] (snd loc) ?fxw")
  have "\<forall>d \<in> set [fst c..snd c]. \<forall>fx. isl (fst (fetch_single_chunk cfg remote time_unit d d fx))"
    using Cons.prems(2) by (simp add: days_of_def)
  from retry_days_all_fail [OF this, of "snd loc" ?fxw] days
  have frames2: "frames2 = snd loc"
    and w2: "length (warnings fx2) = length (warnings fx) + 1 + length (days_of c)"
    by (simp_all add: w1 days_of_def)
  have tr: "try_chunk cfg remote time_unit (fst c) (snd c) (snd loc) fx
      = (Inr (snd c + 1, snd loc), fx2)"
    by (simp add: try_chunk_def day_by_day_def failed days frames2)
  have "\<forall>c \<in> set cs. \<forall>fx. \<exists>code.
      fst (fetch_single_chunk cfg remote time_unit (fst c) (snd c) fx) = Inl (HTTPError code)"
    and "\<forall>c \<in> set cs. \<forall>d \<in> set (days_of c). \<forall>fx.
      isl (fst (fetch_single_chunk cfg remote time_unit d d fx))"
    using Cons.prems by simp_all
  from Cons.IH [OF this, of "(snd c + 1, snd loc)" fx2] show ?case
    by (auto simp: tr w2)
qed

text \<open>Total failure where every sub-range is refused with an HTTP error status: the
  function returns the empty frame, with one warning for each sub-range and one for
  each day.\<close>

lemma total_http_failure:
  assumes "\<forall>c \<in> set (chunks start_date end_date). \<forall>fx. \<exists>code.
      fst (fetch_single_chunk cfg remote time_unit (fst c) (snd c) fx) = Inl (HTTPError code)"
    and "\<forall>d \<in> {start_date..end_date}. \<forall>fx.
      isl (fst (fetch_single_chunk cfg remote time_unit d d fx))"
  shows "\<exists>fx'. fetch_energy_chunked cfg remote time_unit start_date end_date fx = (Inr [], fx')
    \<and> length (warnings fx')
        = length (warnings fx) + length (chunks start_date end_date)
          + nat (end_date - start_date + 1)"
proof -
  have "\<forall>c \<in> set (chunks start_date end_date). \<forall>d \<in> set (days_of c). \<forall>fx.
      isl (fst (fetch_single_chunk cfg remote time_unit d d fx))"
  proof (intro ballI allI)
    fix c d fx
    assume "c \<in> set (chunks start_date end_date)" and "d \<in> set (days_of c)"
    with chunks_bounds [of c start_date end_date] have "d \<in> {start_date..end_date}"
      by (simp add: days_of_def)
    with assms(2) show "isl (fst (fetch_single_chunk cfg remote time_unit d d fx))"
      by blast
  qed
  from run_chunks_all_fail [OF assms(1) this, of "(start_date, [])" fx] show ?thesis
    by (auto simp: fetch_energy_chunked_def fetch_loop_chunks chunks_days)
qed

text \<open>Where every failure of a sub-range is an HTTP error status, the \<^verbatim>\<open>try\<close>
  statement completes for each sub-range, and the function returns a frame.\<close>

lemma run_chunks_http_errors:
  assumes "\<forall>c \<in> set cs. \<forall>fx e.
      fst (fetch_single_chunk cfg remote time_unit (fst c) (snd c) fx) = Inl e
        \<longrightarrow> (\<exists>code. e = HTTPError code)"
  shows "\<exists>loc' fx'. run_chunks cfg remote time_unit cs loc fx = (Inr loc', fx')"
  using assms
proof (induction cs arbitrary: loc fx)
  case Nil
  show ?case
    by simp
next
  case (Cons c cs)
  have rest: "\<forall>c \<in> set cs. \<forall>fx e.
      fst (fetch_single_chunk cfg remote time_unit (fst c) (snd c) fx) = Inl e
        \<longrightarrow> (\<exists>code. e = HTTPError code)"
    using Cons.prems by simp
  obtain r fx1 where chunk: "fetch_single_chunk cfg remote time_unit (fst c) (snd c) fx = (r, fx1)"
    by (cases "fetch_single_chunk cfg remote time_unit (fst c) (snd c) fx")
  have "\<exists>loc1 fx2. try_chunk cfg remote time_unit (fst c) (snd c) (snd loc) fx = (Inr loc1, fx2)"
  proof (cases r)
    case (Inr df)
    with chunk show ?thesis
      by (simp add: try_chunk_def)
  next
    case (Inl e)
    with Cons.prems chunk obtain code where "e = HTTPError code"
      by (auto dest!: bspec [of _ _ c] spec [of _ fx])
    with chunk Inl show ?thesis
      by (simp add: try_chunk_def split: prod.splits)
  qed
  then obtain loc1 fx2 where
    "try_chunk cfg remote time_unit (fst c) (snd c) (snd loc) fx = (Inr loc1, fx2)"
    by blast
  with Cons.IH [OF rest, of loc1 fx2] show ?case
    by simp
qed

lemma http_errors_absorbed:
  assumes "\<forall>c \<in> set (chunks start_date end_date). \<forall>fx e.
      fst (fetch_single_chunk cfg remote time_unit (fst c) (snd c) fx) = Inl e
        \<longrightarrow> (\<exists>code. e = HTTPError code)"
  shows "\<exists>rows fx'. fetch_energy_chunked cfg remote time_unit start_date end_date fx = (Inr rows, fx')"
  using run_chunks_http_errors [OF assms, of "(start_date, [])" fx]
  by (auto simp: fetch_energy_chunked_def fetch_loop_chunks Let_def)

text \<open>
  Claim C1. The handler of line 39 catches \<^verbatim>\<open>requests.exceptions.HTTPError\<close> only. A
  connection error or a timeout of the fetch of a sub-range is not one: it leaves
  \<^verbatim>\<open>fetch_energy_chunked\<close> after the first request, with no fallback and no warning.
\<close>

theorem chunk_failure_propagates:
  "fetch_energy_chunked cfg0 (service unreachable) ''QUARTER_OF_AN_HOUR'' (ymd 2023 1 1) (ymd 2023 3 5)
      fx0
     = (Inl ConnectionError,
        \<lparr> warnings = [],
          requests = [energy_request cfg0 ''QUARTER_OF_AN_HOUR'' (ymd 2023 1 1) (ymd 2023 1 31)], world = 1 \<rparr>)
   \<and> fetch_energy_chunked cfg0 (service too_slow) ''QUARTER_OF_AN_HOUR'' (ymd 2023 1 1) (ymd 2023 3 5)
      fx0
     = (Inl Timeout,
        \<lparr> warnings = [],
          requests = [energy_request cfg0 ''QUARTER_OF_AN_HOUR'' (ymd 2023 1 1) (ymd 2023 1 31)], world = 1 \<rparr>)"
proof -
  have d: "ymd 2023 1 1 = 738521" "ymd 2023 1 31 = 738551" "ymd 2023 3 5 = 738584"
    by (simp_all add: ymd_def days_before_year_def days_before_month_def days_in_month_def
        is_leap_def upto_rec1)
  show ?thesis
    unfolding d by (simp add: run_simps unreachable_def too_slow_def)
qed

text \<open>
  Claim C6. With every request timing out, over forty days, the function does not
  return the empty frame: the first timeout leaves it, and no warning is given.
\<close>

theorem total_failure_by_timeout:
  "fetch_energy_chunked cfg0 (service too_slow) ''DAY'' 1 40 fx0
     = (Inl Timeout, \<lparr> warnings = [], requests = [energy_request cfg0 ''DAY'' 1 31], world = 1 \<rparr>)"
  by (simp add: run_simps too_slow_def)

subsection \<open>Two runs against an unchanged source\<close>








end
